theory Spec2Isabelle
  imports Complex_Main "HOL-Library.Word"
begin

unbundle bit_operations_syntax

section \<open>Toolkit geometry: points, sizes and rectangles\<close>

text \<open>
  The storyboard view computes with the toolkit's integer rectangles. A rectangle keeps
  the coordinates of its top-left and of its bottom-right pixel, both inclusive, so a
  rectangle from 0 to 99 is 100 pixels wide. The operations below are the ones
  \<^verbatim>\<open>StoryboardView::visualRect\<close> calls, each with the toolkit's meaning.
  Coordinates are pixel positions, far from the limits of a C++ \<^verbatim>\<open>int\<close>, where
  signed overflow would be undefined; they are modelled as \<^typ>\<open>int\<close>.
\<close>

record QPoint =
  xp :: int
  yp :: int

record QSize =
  wd :: int
  ht :: int

record QRect =
  x1 :: int
  y1 :: int
  x2 :: int
  y2 :: int

definition mkPoint :: "int \<Rightarrow> int \<Rightarrow> QPoint" where
  "mkPoint x y = \<lparr>xp = x, yp = y\<rparr>"

definition mkSize :: "int \<Rightarrow> int \<Rightarrow> QSize" where
  "mkSize w h = \<lparr>wd = w, ht = h\<rparr>"

definition mkRect :: "int \<Rightarrow> int \<Rightarrow> int \<Rightarrow> int \<Rightarrow> QRect" where
  \<comment> \<open>the constructor from a top-left corner, a width and a height\<close>
  "mkRect x y w h = \<lparr>x1 = x, y1 = y, x2 = x + w - 1, y2 = y + h - 1\<rparr>"

definition nullRect :: QRect where
  \<comment> \<open>the default-constructed rectangle\<close>
  "nullRect = \<lparr>x1 = 0, y1 = 0, x2 = - 1, y2 = - 1\<rparr>"

definition point_add :: "QPoint \<Rightarrow> QPoint \<Rightarrow> QPoint" where
  "point_add p q = \<lparr>xp = xp p + xp q, yp = yp p + yp q\<rparr>"

definition point_sub :: "QPoint \<Rightarrow> QPoint \<Rightarrow> QPoint" where
  "point_sub p q = \<lparr>xp = xp p - xp q, yp = yp p - yp q\<rparr>"

definition rect_left :: "QRect \<Rightarrow> int" where
  "rect_left r = x1 r"

definition rect_top :: "QRect \<Rightarrow> int" where
  "rect_top r = y1 r"

definition rect_right :: "QRect \<Rightarrow> int" where
  "rect_right r = x2 r"

definition rect_bottom :: "QRect \<Rightarrow> int" where
  "rect_bottom r = y2 r"

definition rect_width :: "QRect \<Rightarrow> int" where
  "rect_width r = x2 r - x1 r + 1"

definition rect_height :: "QRect \<Rightarrow> int" where
  "rect_height r = y2 r - y1 r + 1"

definition topLeft :: "QRect \<Rightarrow> QPoint" where
  "topLeft r = mkPoint (x1 r) (y1 r)"

definition bottomRight :: "QRect \<Rightarrow> QPoint" where
  "bottomRight r = mkPoint (x2 r) (y2 r)"

definition setTopLeft :: "QPoint \<Rightarrow> QRect \<Rightarrow> QRect" where
  "setTopLeft p r = r\<lparr>x1 := xp p, y1 := yp p\<rparr>"

definition setBottomRight :: "QPoint \<Rightarrow> QRect \<Rightarrow> QRect" where
  "setBottomRight p r = r\<lparr>x2 := xp p, y2 := yp p\<rparr>"

definition setSize :: "QSize \<Rightarrow> QRect \<Rightarrow> QRect" where
  \<comment> \<open>the top-left corner stays, the bottom-right corner follows the new size\<close>
  "setSize s r = r\<lparr>x2 := wd s + x1 r - 1, y2 := ht s + y1 r - 1\<rparr>"

definition translate :: "int \<Rightarrow> int \<Rightarrow> QRect \<Rightarrow> QRect" where
  "translate dx dy r = \<lparr>x1 = x1 r + dx, y1 = y1 r + dy, x2 = x2 r + dx, y2 = y2 r + dy\<rparr>"

definition moveLeft :: "int \<Rightarrow> QRect \<Rightarrow> QRect" where
  \<comment> \<open>moves horizontally, keeping the width, so that the left edge is at \<open>pos\<close>\<close>
  "moveLeft pos r = r\<lparr>x2 := x2 r + (pos - x1 r), x1 := pos\<rparr>"

definition moveRight :: "int \<Rightarrow> QRect \<Rightarrow> QRect" where
  \<comment> \<open>moves horizontally, keeping the width, so that the right edge is at \<open>pos\<close>\<close>
  "moveRight pos r = r\<lparr>x1 := x1 r + (pos - x2 r), x2 := pos\<rparr>"

definition setTop :: "int \<Rightarrow> QRect \<Rightarrow> QRect" where
  \<comment> \<open>moves the top edge only; the bottom edge stays and the height changes\<close>
  "setTop pos r = r\<lparr>y1 := pos\<rparr>"

text \<open>
  The pixels of a rectangle, and the relations between rectangles the geometry claims
  speak of. \<open>rect_within\<close> and \<open>rect_disjoint\<close> compare edges, so they can be
  evaluated; \<open>within_pixels\<close> and \<open>disjoint_pixels\<close> below relate them to the pixels.
  \<open>rect_contains\<close> is the toolkit's own test, \<^verbatim>\<open>QRect::contains(r, false)\<close>: it fails
  when either rectangle is null, and it puts the edges of a rectangle of negative width
  or height in order before it compares them.
\<close>

definition rect_pixels :: "QRect \<Rightarrow> (int \<times> int) set" where
  "rect_pixels r = {(x, y). x1 r \<le> x \<and> x \<le> x2 r \<and> y1 r \<le> y \<and> y \<le> y2 r}"

definition rect_isEmpty :: "QRect \<Rightarrow> bool" where
  "rect_isEmpty r = (x2 r < x1 r \<or> y2 r < y1 r)"

definition rect_isNull :: "QRect \<Rightarrow> bool" where
  "rect_isNull r = (x2 r = x1 r - 1 \<and> y2 r = y1 r - 1)"

definition rect_within :: "QRect \<Rightarrow> QRect \<Rightarrow> bool" where
  \<comment> \<open>\<open>rect_within c p\<close>: each of the four edges of \<open>c\<close> lies between the edges of \<open>p\<close>\<close>
  "rect_within c p =
     (x1 p \<le> x1 c \<and> x1 c \<le> x2 p \<and> x1 p \<le> x2 c \<and> x2 c \<le> x2 p \<and>
      y1 p \<le> y1 c \<and> y1 c \<le> y2 p \<and> y1 p \<le> y2 c \<and> y2 c \<le> y2 p)"

definition rect_contains :: "QRect \<Rightarrow> QRect \<Rightarrow> bool" where
  "rect_contains p r =
     (if rect_isNull p \<or> rect_isNull r then False
      else
        (let l1 = (if x2 p - x1 p + 1 < 0 then x2 p else x1 p);
             r1 = (if x2 p - x1 p + 1 < 0 then x1 p else x2 p);
             l2 = (if x2 r - x1 r + 1 < 0 then x2 r else x1 r);
             r2 = (if x2 r - x1 r + 1 < 0 then x1 r else x2 r)
         in if l2 < l1 \<or> r2 > r1 then False
            else
              (let t1 = (if y2 p - y1 p + 1 < 0 then y2 p else y1 p);
                   b1 = (if y2 p - y1 p + 1 < 0 then y1 p else y2 p);
                   t2 = (if y2 r - y1 r + 1 < 0 then y2 r else y1 r);
                   b2 = (if y2 r - y1 r + 1 < 0 then y1 r else y2 r)
               in if t2 < t1 \<or> b2 > b1 then False else True)))"

definition rect_disjoint :: "QRect \<Rightarrow> QRect \<Rightarrow> bool" where
  "rect_disjoint r s =
     (rect_isEmpty r \<or> rect_isEmpty s \<or>
      x2 r < x1 s \<or> x2 s < x1 r \<or> y2 r < y1 s \<or> y2 s < y1 r)"

section \<open>Model indices\<close>

text \<open>
  An index of the item model names a row and a column under a parent index. The
  default-constructed index is invalid and is the parent of the top-level items; an
  index is valid when it belongs to a model and its row and column are not negative.
  The parent of an invalid index is the invalid index again.
\<close>

datatype QModelIndex =
    InvalidIndex
  | ModelIndex int int QModelIndex

fun isValid :: "QModelIndex \<Rightarrow> bool" where
  "isValid InvalidIndex = False"
| "isValid (ModelIndex r c p) = (0 \<le> r \<and> 0 \<le> c)"

fun parent :: "QModelIndex \<Rightarrow> QModelIndex" where
  "parent InvalidIndex = InvalidIndex"
| "parent (ModelIndex r c p) = p"

fun row :: "QModelIndex \<Rightarrow> int" where
  "row InvalidIndex = - 1"
| "row (ModelIndex r c p) = r"

fun column :: "QModelIndex \<Rightarrow> int" where
  "column InvalidIndex = - 1"
| "column (ModelIndex r c p) = c"

section \<open>The storyboard view\<close>

text \<open>
  What the view reads from its base class and its collaborators: the metrics of its
  font (the height of the font and the width of the text \<^verbatim>\<open>"0"\<close>), the list view's
  own rectangle for an index (\<^verbatim>\<open>QListView::visualRect\<close>), the row counts of the model,
  and the selection model's selected indices and current index.
\<close>

record view =
  fontMetrics_height :: int
  fontMetrics_width0 :: int
  listView_visualRect :: "QModelIndex \<Rightarrow> QRect"
  model_rowCount :: "QModelIndex \<Rightarrow> int"
  selection_isSelected :: "QModelIndex \<Rightarrow> bool"
  selection_currentIndex :: QModelIndex

definition insetRect :: "QRect \<Rightarrow> QRect" where
  \<comment> \<open>the first two statements on \<^verbatim>\<open>parentRect\<close>: five pixels off every side\<close>
  "insetRect parentRect =
     (let r1 = setTopLeft (point_add (topLeft parentRect) (mkPoint 5 5)) parentRect
      in setBottomRight (point_sub (bottomRight r1) (mkPoint 5 5)) r1)"

definition childRect :: "QRect \<Rightarrow> int \<Rightarrow> int \<Rightarrow> int \<Rightarrow> QRect" where
  \<comment> \<open>the \<^verbatim>\<open>switch (childRow)\<close> on the inset parent rectangle\<close>
  "childRect parentRect fontHeight numericFontWidth childRow =
     (let height = rect_height parentRect;
          width = rect_width parentRect
      in if childRow = 0 then
           translate 0 fontHeight (setSize (mkSize width 120) parentRect)
         else if childRow = 1 then
           (let itemNameRect = setSize (mkSize (width - (10 * numericFontWidth + 6)) fontHeight) parentRect
            in moveLeft (rect_left parentRect + 3 * numericFontWidth + 2) itemNameRect)
         else if childRow = 2 then
           (let secondRect = setSize (mkSize (4 * numericFontWidth + 2) fontHeight) parentRect
            in moveRight (rect_right parentRect - 3 * numericFontWidth - 2) secondRect)
         else if childRow = 3 then
           (let frameRect = setSize (mkSize (3 * numericFontWidth + 2) fontHeight) parentRect
            in moveRight (rect_right parentRect) frameRect)
         else
           setTop (rect_top parentRect + 120 + fontHeight) parentRect)"

fun visualRect :: "view \<Rightarrow> QModelIndex \<Rightarrow> QRect" where
  "visualRect v InvalidIndex = listView_visualRect v InvalidIndex"
| "visualRect v (ModelIndex r c p) =
     (if \<not> isValid (ModelIndex r c p) \<or> \<not> isValid p then
        listView_visualRect v (ModelIndex r c p)
      else
        (let parentRect = insetRect (visualRect v p);
             fontHeight = fontMetrics_height v + 3;
             numericFontWidth = fontMetrics_width0 v
         in childRect parentRect fontHeight numericFontWidth r))"

subsection \<open>The calls of \<open>visualRect\<close>, with the state passed along\<close>

text \<open>
  \<open>visualRect\<close> above gives the rectangle as a function of what the view holds. To state
  what the method does to the view, the same method is written once more with the state
  of the view passed through every call it makes on the toolkit, in the order of the
  source: the list view's \<^verbatim>\<open>QListView::visualRect\<close>, the call on itself for the parent,
  \<^verbatim>\<open>fontMetrics().height()\<close> and \<^verbatim>\<open>fontMetrics().width("0")\<close>. Each toolkit call takes
  the state and returns its result with the state after it, so a toolkit whose calls
  write to the view can be expressed; the rectangle arithmetic works on local values
  only. \<open>view_reads\<close> says that a view holds what the toolkit calls return in a state.
  \<open>viewToolkit\<close> is the toolkit that reads a view and leaves it as it is, and
  \<open>countingToolkit\<close> one that counts the calls made on it.
\<close>

record 's toolkit =
  tk_fontHeight :: "'s \<Rightarrow> int \<times> 's"
  tk_fontWidth0 :: "'s \<Rightarrow> int \<times> 's"
  tk_visualRect :: "QModelIndex \<Rightarrow> 's \<Rightarrow> QRect \<times> 's"

fun visualRect_run :: "'s toolkit \<Rightarrow> QModelIndex \<Rightarrow> 's \<Rightarrow> QRect \<times> 's" where
  "visualRect_run tk InvalidIndex s = tk_visualRect tk InvalidIndex s"
| "visualRect_run tk (ModelIndex r c p) s =
     (if \<not> isValid (ModelIndex r c p) \<or> \<not> isValid p then
        tk_visualRect tk (ModelIndex r c p) s
      else
        (let (parentRect0, s1) = visualRect_run tk p s;
             parentRect = insetRect parentRect0;
             (h, s2) = tk_fontHeight tk s1;
             fontHeight = h + 3;
             (numericFontWidth, s3) = tk_fontWidth0 tk s2
         in (childRect parentRect fontHeight numericFontWidth r, s3)))"



definition countingToolkit :: "nat toolkit" where
  "countingToolkit =
     \<lparr>tk_fontHeight = (\<lambda>n. (15, Suc n)),
      tk_fontWidth0 = (\<lambda>n. (8, Suc n)),
      tk_visualRect = (\<lambda>i n. (mkRect 0 0 250 300, Suc n))\<rparr>"

subsection \<open>The geometry as the specification words it\<close>

text \<open>
  The rectangles of the five kinds of child row, written from the description of the
  layout: a top-left corner, a width and a height, or a right edge to align with. They
  are compared with \<open>visualRect\<close> below.
\<close>

definition spec_insetRect :: "QRect \<Rightarrow> QRect" where
  "spec_insetRect P = mkRect (rect_left P + 5) (rect_top P + 5) (rect_width P - 10) (rect_height P - 10)"

definition spec_thumbnailRect :: "QRect \<Rightarrow> int \<Rightarrow> QRect" where
  "spec_thumbnailRect I fontHeight = mkRect (rect_left I) (rect_top I + fontHeight) (rect_width I) 120"

definition spec_nameRect :: "QRect \<Rightarrow> int \<Rightarrow> int \<Rightarrow> QRect" where
  "spec_nameRect I fontHeight numericFontWidth =
     mkRect (rect_left I + 3 * numericFontWidth + 2) (rect_top I)
       (rect_width I - (10 * numericFontWidth + 6)) fontHeight"

definition rightAligned :: "int \<Rightarrow> int \<Rightarrow> int \<Rightarrow> int \<Rightarrow> QRect" where
  "rightAligned right_edge y w h = mkRect (right_edge - w + 1) y w h"

definition spec_secondRect :: "QRect \<Rightarrow> int \<Rightarrow> int \<Rightarrow> QRect" where
  "spec_secondRect I fontHeight numericFontWidth =
     rightAligned (rect_right I - 3 * numericFontWidth - 2) (rect_top I)
       (4 * numericFontWidth + 2) fontHeight"

definition spec_frameRect :: "QRect \<Rightarrow> int \<Rightarrow> int \<Rightarrow> QRect" where
  "spec_frameRect I fontHeight numericFontWidth =
     rightAligned (rect_right I) (rect_top I) (3 * numericFontWidth + 2) fontHeight"

definition spec_commentRect :: "QRect \<Rightarrow> int \<Rightarrow> QRect" where
  "spec_commentRect I fontHeight =
     \<lparr>x1 = rect_left I, y1 = rect_top I + (120 + fontHeight), x2 = rect_right I, y2 = rect_bottom I\<rparr>"

definition spec_childRect :: "QRect \<Rightarrow> int \<Rightarrow> int \<Rightarrow> int \<Rightarrow> QRect" where
  "spec_childRect P fontHeight numericFontWidth r =
     (let I = spec_insetRect P
      in if r = 0 then spec_thumbnailRect I fontHeight
         else if r = 1 then spec_nameRect I fontHeight numericFontWidth
         else if r = 2 then spec_secondRect I fontHeight numericFontWidth
         else if r = 3 then spec_frameRect I fontHeight numericFontWidth
         else spec_commentRect I fontHeight)"

subsection \<open>Painting\<close>

text \<open>
  The style option handed to the item delegate carries the state flags and the
  rectangle to paint in; a default-constructed option has no flag set. The flags are
  bits of a 32-bit value, combined with \<open>OR\<close>.
\<close>

type_synonym state_flags = "32 word"

definition State_None :: state_flags where
  "State_None = 0x00000000"

definition State_HasFocus :: state_flags where
  "State_HasFocus = 0x00000100"

definition State_Selected :: state_flags where
  "State_Selected = 0x00008000"


record QStyleOptionViewItem =
  option_state :: state_flags
  option_rect :: QRect

definition defaultOption :: QStyleOptionViewItem where
  "defaultOption = \<lparr>option_state = State_None, option_rect = nullRect\<rparr>"

text \<open>
  What \<open>paintEvent\<close> does is recorded as the list of the calls it makes, in order:
  accepting the event, the list view's own painting, and each call of the item
  delegate's \<open>paint\<close> with its option and its index.
\<close>

datatype paint_call =
    EventAccept
  | ListViewPaint
  | DelegatePaint QStyleOptionViewItem QModelIndex

text \<open>
  The model's \<open>index(row, column, parent)\<close>, asked only for rows below the row count of
  the parent: the index of that row and column whose parent is the given index.
\<close>

definition model_index :: "int \<Rightarrow> int \<Rightarrow> QModelIndex \<Rightarrow> QModelIndex" where
  "model_index r c p = ModelIndex r c p"

text \<open>
  The body of the inner loop builds the option for one child: a default option, the
  two flags from the state of the top-level \<open>index\<close>, and the child's rectangle.
\<close>

definition childOption :: "view \<Rightarrow> QModelIndex \<Rightarrow> QModelIndex \<Rightarrow> QStyleOptionViewItem" where
  "childOption v index childIndex =
     (let option0 = defaultOption;
          option1 = (if selection_isSelected v index
                     then option0\<lparr>option_state := option_state option0 OR State_Selected\<rparr>
                     else option0);
          option2 = (if index = selection_currentIndex v
                     then option1\<lparr>option_state := option_state option1 OR State_HasFocus\<rparr>
                     else option1)
      in option2\<lparr>option_rect := visualRect v childIndex\<rparr>)"

text \<open>
  The inner loop over \<open>childRow\<close> and the outer loop over the top-level rows. Both
  count upwards to a bound read before the loop starts.
\<close>

function paintChildren :: "view \<Rightarrow> QModelIndex \<Rightarrow> int \<Rightarrow> int \<Rightarrow> paint_call list" where
  "paintChildren v index childNum childRow =
     (if childRow < childNum then
        (let childIndex = model_index childRow 0 index
         in DelegatePaint (childOption v index childIndex) childIndex
              # paintChildren v index childNum (childRow + 1))
      else [])"
  by pat_completeness auto
termination
  by (relation "measure (\<lambda>(v, index, childNum, childRow). nat (childNum - childRow))") auto

function paintRows :: "view \<Rightarrow> int \<Rightarrow> int \<Rightarrow> paint_call list" where
  "paintRows v itemNum r =
     (if r < itemNum then
        (let index = model_index r 0 InvalidIndex;
             childNum = model_rowCount v index
         in paintChildren v index childNum 0 @ paintRows v itemNum (r + 1))
      else [])"
  by pat_completeness auto
termination
  by (relation "measure (\<lambda>(v, itemNum, r). nat (itemNum - r))") auto

definition paintEvent :: "view \<Rightarrow> paint_call list" where
  "paintEvent v =
     EventAccept # ListViewPaint # paintRows v (model_rowCount v InvalidIndex) 0"

text \<open>
  For stating what is painted: the indices handed to the delegate, in order; the
  top-level index of a row and the child at a row under it; and the delegate calls for
  the children of one top-level row.
\<close>

fun paintedIndex :: "paint_call \<Rightarrow> QModelIndex option" where
  "paintedIndex (DelegatePaint opt idx) = Some idx"
| "paintedIndex _ = None"

definition paintedIndices :: "view \<Rightarrow> QModelIndex list" where
  "paintedIndices v = List.map_filter paintedIndex (paintEvent v)"

definition topIndex :: "int \<Rightarrow> QModelIndex" where
  "topIndex r = ModelIndex r 0 InvalidIndex"

definition childIndexAt :: "int \<Rightarrow> int \<Rightarrow> QModelIndex" where
  "childIndexAt r cr = ModelIndex cr 0 (topIndex r)"

definition childCalls :: "view \<Rightarrow> int \<Rightarrow> paint_call list" where
  "childCalls v r =
     map (\<lambda>cr. DelegatePaint (childOption v (topIndex r) (childIndexAt r cr)) (childIndexAt r cr))
       [0..model_rowCount v (topIndex r) - 1]"

subsection \<open>Example views\<close>

text \<open>
  Three views with a font 15 pixels high and 8 pixels wide: \<open>wview\<close> with items of
  250 by 300 pixels, \<open>pview\<close> with two top-level rows of two children and one child,
  the second row selected and the first one current, \<open>smallview\<close> with items of
  100 by 100 pixels, and \<open>tightview\<close> with items of 65 by 143 pixels.
\<close>

definition wview :: view where
  "wview = \<lparr>fontMetrics_height = 15, fontMetrics_width0 = 8,
          listView_visualRect = (\<lambda>_. mkRect 0 0 250 300),
          model_rowCount = (\<lambda>_. 0), selection_isSelected = (\<lambda>_. False),
          selection_currentIndex = InvalidIndex\<rparr>"

definition pview :: view where
  "pview = \<lparr>fontMetrics_height = 15, fontMetrics_width0 = 8,
          listView_visualRect = (\<lambda>i. mkRect (260 * row i) 0 250 300),
          model_rowCount = (\<lambda>i. if i = InvalidIndex then 2 else if i = ModelIndex 0 0 InvalidIndex then 2
              else if i = ModelIndex 1 0 InvalidIndex then 1 else 0),
          selection_isSelected = (\<lambda>i. i = ModelIndex 1 0 InvalidIndex),
          selection_currentIndex = ModelIndex 0 0 InvalidIndex\<rparr>"

definition smallview :: view where
  "smallview = \<lparr>fontMetrics_height = 15, fontMetrics_width0 = 8,
          listView_visualRect = (\<lambda>_. mkRect 0 0 100 100),
          model_rowCount = (\<lambda>_. 0), selection_isSelected = (\<lambda>_. False),
          selection_currentIndex = InvalidIndex\<rparr>"

definition tightview :: view where
  "tightview = \<lparr>fontMetrics_height = 15, fontMetrics_width0 = 8,
          listView_visualRect = (\<lambda>_. mkRect 0 0 65 143),
          model_rowCount = (\<lambda>_. 0), selection_isSelected = (\<lambda>_. False),
          selection_currentIndex = InvalidIndex\<rparr>"

section \<open>The ruler\<close>

text \<open>
  \<^verbatim>\<open>KoRuler.h\<close> declares the ruler's interface and the \<open>Tab\<close> structure, a position in
  points with the toolkit's kind of tab. The bodies of the ruler's methods and its
  private data belong to \<^verbatim>\<open>KoRuler.cpp\<close>; what follows is written from the header's
  documentation of each method.
\<close>

datatype TabType = LeftTab | RightTab | CenterTab | DelimiterTab

record Tab =
  tab_position :: real
  tab_type :: TabType

text \<open>
  Modelled from the spec: the private data of \<open>KoRuler\<close> (\<^verbatim>\<open>KoRulerPrivate\<close>, declared
  but not defined in the header). The specification lists a hotspot list and a tab list among its fields;
  a hotspot is a position on the ruler with an identifier (\<open>setHotSpot(position, id)\<close>).
  Only the fields the hotspot and tab calls work on are kept.
\<close>

record HotSpotData =
  hs_position :: real
  hs_id :: int

record KoRulerPrivate =
  hotspots :: "HotSpotData list"
  tabs :: "Tab list"
  tabDistance :: real

text \<open>
  Modelled from the spec: \<^verbatim>\<open>KoRuler::setHotSpot\<close> (body absent). The header documents it
  as "Add or set a hotspot", with \<open>id\<close> "the unique id for the hotspot. If the id has
  not been set before, it will be added": the hotspot with that identifier gets the new
  position, and when there is none a new hotspot is added at the end.
\<close>

fun setHotSpot_list :: "real \<Rightarrow> int \<Rightarrow> HotSpotData list \<Rightarrow> HotSpotData list" where
  "setHotSpot_list position i [] = [\<lparr>hs_position = position, hs_id = i\<rparr>]"
| "setHotSpot_list position i (hs # rest) =
     (if hs_id hs = i then hs\<lparr>hs_position := position\<rparr> # rest
      else hs # setHotSpot_list position i rest)"

definition setHotSpot :: "real \<Rightarrow> int \<Rightarrow> KoRulerPrivate \<Rightarrow> KoRulerPrivate" where
  \<comment> \<open>Modelled from the spec: \<^verbatim>\<open>setHotSpot\<close> on the ruler's hotspot list\<close>
  "setHotSpot position i d = d\<lparr>hotspots := setHotSpot_list position i (hotspots d)\<rparr>"

text \<open>
  Modelled from the spec: \<^verbatim>\<open>KoRuler::removeHotSpot\<close> (body absent), documented as
  "Remove a previously set hotspot, returning true if one is actually" removed: the
  hotspot with that identifier leaves the list, and the result tells whether there was
  one.
\<close>

fun removeHotSpot_list :: "int \<Rightarrow> HotSpotData list \<Rightarrow> bool \<times> HotSpotData list" where
  "removeHotSpot_list i [] = (False, [])"
| "removeHotSpot_list i (hs # rest) =
     (if hs_id hs = i then (True, rest)
      else (let (found, rest') = removeHotSpot_list i rest in (found, hs # rest')))"

definition removeHotSpot :: "int \<Rightarrow> KoRulerPrivate \<Rightarrow> bool \<times> KoRulerPrivate" where
  \<comment> \<open>Modelled from the spec: \<^verbatim>\<open>removeHotSpot\<close> on the ruler's hotspot list\<close>
  "removeHotSpot i d =
     (let (found, rest) = removeHotSpot_list i (hotspots d) in (found, d\<lparr>hotspots := rest\<rparr>))"

text \<open>
  Modelled from the spec: \<^verbatim>\<open>KoRuler::clearHotSpots\<close> (body absent), "Clear all previously
  set hotspots", and \<^verbatim>\<open>KoRuler::updateTabs\<close> (body absent), "Update the tabs" with the
  list of tabs shown on the ruler and the distance between regular tabs; a new ruler
  has no hotspot and no tab.
\<close>

definition clearHotSpots :: "KoRulerPrivate \<Rightarrow> KoRulerPrivate" where
  \<comment> \<open>Modelled from the spec: no hotspot is left\<close>
  "clearHotSpots d = d\<lparr>hotspots := []\<rparr>"

definition updateTabs :: "Tab list \<Rightarrow> real \<Rightarrow> KoRulerPrivate \<Rightarrow> KoRulerPrivate" where
  \<comment> \<open>Modelled from the spec: the tabs and their distance are replaced, the hotspots stay\<close>
  "updateTabs ts distance d = d\<lparr>tabs := ts, tabDistance := distance\<rparr>"

definition newRuler :: KoRulerPrivate where
  \<comment> \<open>Modelled from the spec: the ruler as constructed, before any hotspot or tab is set\<close>
  "newRuler = \<lparr>hotspots = [], tabs = [], tabDistance = 0\<rparr>"

text \<open>
  A sequence of calls of these four methods, run from left to right.
\<close>

datatype ruler_call =
    SetHotSpot real int
  | RemoveHotSpot int
  | ClearHotSpots
  | UpdateTabs "Tab list" real

fun ruler_step :: "KoRulerPrivate \<Rightarrow> ruler_call \<Rightarrow> KoRulerPrivate" where
  "ruler_step d (SetHotSpot position i) = setHotSpot position i d"
| "ruler_step d (RemoveHotSpot i) = snd (removeHotSpot i d)"
| "ruler_step d ClearHotSpots = clearHotSpots d"
| "ruler_step d (UpdateTabs ts distance) = updateTabs ts distance d"

definition ruler_run :: "KoRulerPrivate \<Rightarrow> ruler_call list \<Rightarrow> KoRulerPrivate" where
  "ruler_run d calls = foldl ruler_step d calls"

definition hotspot_ids :: "KoRulerPrivate \<Rightarrow> int list" where
  "hotspot_ids d = map hs_id (hotspots d)"

section \<open>Rectangle arithmetic\<close>

lemmas geom_defs = mkRect_def mkPoint_def mkSize_def point_add_def point_sub_def
      topLeft_def bottomRight_def setTopLeft_def setBottomRight_def setSize_def translate_def rect_width_def rect_height_def
      rect_left_def rect_right_def rect_top_def rect_bottom_def moveLeft_def moveRight_def setTop_def

lemma insetRect_eq: "insetRect P = \<lparr>x1 = x1 P + 5, y1 = y1 P + 5, x2 = x2 P - 5, y2 = y2 P - 5\<rparr>"
  by (simp add: insetRect_def geom_defs Let_def)

lemma spec_insetRect_eq: "spec_insetRect P = insetRect P"
  by (simp add: insetRect_eq spec_insetRect_def geom_defs)

lemma childRect_eq:
  "childRect I fh nw r =
    (if r = 0 then \<lparr>x1 = x1 I, y1 = y1 I + fh, x2 = x2 I, y2 = y1 I + fh + 119\<rparr>
     else if r = 1 then \<lparr>x1 = x1 I + 3 * nw + 2, y1 = y1 I, x2 = x2 I - 7 * nw - 4, y2 = y1 I + fh - 1\<rparr>
     else if r = 2 then \<lparr>x1 = x2 I - 7 * nw - 3, y1 = y1 I, x2 = x2 I - 3 * nw - 2, y2 = y1 I + fh - 1\<rparr>
     else if r = 3 then \<lparr>x1 = x2 I - 3 * nw - 1, y1 = y1 I, x2 = x2 I, y2 = y1 I + fh - 1\<rparr>
     else \<lparr>x1 = x1 I, y1 = y1 I + 120 + fh, x2 = x2 I, y2 = y2 I\<rparr>)"
  by (cases I) (simp add: childRect_def geom_defs Let_def)

lemma visualRect_child:
  "isValid idx \<Longrightarrow> isValid (parent idx) \<Longrightarrow>
   visualRect v idx = childRect (insetRect (visualRect v (parent idx)))
      (fontMetrics_height v + 3) (fontMetrics_width0 v) (row idx)"
  by (cases idx) (simp_all add: Let_def)

lemma within_pixels: "rect_within c p \<Longrightarrow> rect_pixels c \<subseteq> rect_pixels p"
  by (auto simp: rect_within_def rect_pixels_def)

lemma within_contains:
  "rect_within c p \<Longrightarrow> \<not> rect_isNull c \<Longrightarrow> \<not> rect_isNull p \<Longrightarrow> rect_contains p c"
  by (auto simp: rect_within_def rect_contains_def Let_def)

lemma overlap_pixel:
  "\<not> rect_disjoint r s \<Longrightarrow>
   (max (x1 r) (x1 s), max (y1 r) (y1 s)) \<in> rect_pixels r \<inter> rect_pixels s"
  by (auto simp: rect_disjoint_def rect_isEmpty_def rect_pixels_def)

lemma disjoint_pixels: "rect_disjoint r s \<longleftrightarrow> rect_pixels r \<inter> rect_pixels s = {}"
proof
  assume "rect_disjoint r s"
  then show "rect_pixels r \<inter> rect_pixels s = {}"
    by (auto simp: rect_disjoint_def rect_isEmpty_def rect_pixels_def)
next
  assume "rect_pixels r \<inter> rect_pixels s = {}"
  with overlap_pixel [of r s] show "rect_disjoint r s" by blast
qed


section \<open>The rectangle of an index\<close>

text \<open>
  Claim C4. For an invalid index \<open>visualRect\<close> returns what the list view's own
  \<^verbatim>\<open>QListView::visualRect\<close> returns for that index; none of the child rectangles is
  computed.
\<close>

theorem visualRect_invalid:
  assumes "\<not> isValid idx"
  shows "visualRect v idx = listView_visualRect v idx"
  using assms by (cases idx) simp_all

theorem visualRect_invalid_witness:
  "\<not> isValid InvalidIndex \<and> \<not> isValid (ModelIndex (- 1) 0 (topIndex 0)) \<and>
   visualRect wview InvalidIndex = listView_visualRect wview InvalidIndex \<and>
   visualRect wview (ModelIndex (- 1) 0 (topIndex 0))
     = listView_visualRect wview (ModelIndex (- 1) 0 (topIndex 0))"
  using visualRect_invalid [of InvalidIndex wview]
    visualRect_invalid [of "ModelIndex (- 1) 0 (topIndex 0)" wview]
  by simp

text \<open>
  Claim C8. For a valid index whose parent is invalid, a top-level item, \<open>visualRect\<close>
  returns the list view's own rectangle. The rectangle differs from the list view's only
  for a valid index with a valid parent.
\<close>

theorem visualRect_top_level:
  "(isValid idx \<and> \<not> isValid (parent idx) \<longrightarrow> visualRect v idx = listView_visualRect v idx) \<and>
   (visualRect v idx \<noteq> listView_visualRect v idx \<longrightarrow> isValid idx \<and> isValid (parent idx))"
  by (cases idx) simp_all

theorem visualRect_top_level_witness:
  "isValid (topIndex 3) \<and> \<not> isValid (parent (topIndex 3)) \<and>
   visualRect wview (topIndex 3) = listView_visualRect wview (topIndex 3) \<and>
   visualRect wview (childIndexAt 3 1) \<noteq> listView_visualRect wview (childIndexAt 3 1) \<and>
   isValid (childIndexAt 3 1) \<and> isValid (parent (childIndexAt 3 1))"
  using visualRect_top_level [of "topIndex 3" wview] visualRect_top_level [of "childIndexAt 3 1" wview]
  by (simp add: topIndex_def childIndexAt_def wview_def childRect_eq insetRect_eq mkRect_def)

text \<open>
  Claim C2. For a valid index with a valid parent, the rectangle is chosen by the row
  alone: with the parent's rectangle inset by five pixels on every side, row 0 is the
  thumbnail (the inset width, height 120, moved down by the font height plus 3), row 1
  the name (the inset width less \<open>10 * numericFontWidth + 6\<close>, starting
  \<open>3 * numericFontWidth + 2\<close> right of the inset left edge), row 2 a field
  \<open>4 * numericFontWidth + 2\<close> wide ending \<open>3 * numericFontWidth + 2\<close> left of
  the inset right edge, row 3 a field \<open>3 * numericFontWidth + 2\<close> wide ending at the
  inset right edge, and every later row the comment block, the inset rectangle with its
  top moved down by 120 plus the font height plus 3.
\<close>

theorem visualRect_switch:
  assumes "isValid idx" and "isValid (parent idx)"
  shows "visualRect v idx =
           spec_childRect (visualRect v (parent idx)) (fontMetrics_height v + 3)
             (fontMetrics_width0 v) (row idx)"
  unfolding visualRect_child [OF assms] spec_childRect_def spec_insetRect_eq Let_def
  by (simp add: childRect_eq spec_thumbnailRect_def spec_nameRect_def spec_secondRect_def
      spec_frameRect_def spec_commentRect_def rightAligned_def geom_defs)

theorem visualRect_switch_witness:
  "isValid (ModelIndex 2 0 (ModelIndex 0 0 InvalidIndex)) \<and>
   isValid (parent (ModelIndex 2 0 (ModelIndex 0 0 InvalidIndex))) \<and>
   visualRect wview (ModelIndex 2 0 (ModelIndex 0 0 InvalidIndex)) =
     spec_childRect (visualRect wview (ModelIndex 0 0 InvalidIndex)) 18 8 2"
  using visualRect_switch [of "ModelIndex 2 0 (ModelIndex 0 0 InvalidIndex)" wview]
  by (simp add: wview_def)

lemma childRect_within:
  assumes "0 \<le> fh" and "0 \<le> nw"
    and "fh + 126 \<le> rect_height P" and "7 * nw + 10 \<le> rect_width P"
    and "0 \<le> r"
  shows "rect_within (childRect (insetRect P) fh nw r) P"
  using assms
  by (simp add: childRect_eq insetRect_eq rect_within_def rect_height_def rect_width_def)

text \<open>
  Claim C1, amended. \<open>visualRect\<close> does not clamp a child's rectangle to its parent's:
  the thumbnail is 120 pixels high and the text fields are as wide as the font makes
  them, whatever the size of the item, so in a small item a child reaches outside (the
  counterexample below). What holds: for a valid index with a valid parent, when the font
  metrics are not negative and the parent's rectangle is at least the font height plus
  129 pixels high (\<open>fontHeight + 126\<close>) and at least \<open>7 * numericFontWidth + 10\<close>
  pixels wide, the rectangle of the index lies within the rectangle of its parent: each
  of its four edges lies between the edges of the parent's rectangle, every pixel of it
  is a pixel of the parent's rectangle, and the toolkit's \<^verbatim>\<open>QRect::contains\<close> holds of the
  two unless the rectangle of the index is the null rectangle, for which the toolkit's
  test always fails.
\<close>

theorem visualRect_within_parent:
  assumes "isValid idx" and "isValid (parent idx)"
    and "0 \<le> fontMetrics_height v" and "0 \<le> fontMetrics_width0 v"
    and "fontMetrics_height v + 3 + 126 \<le> rect_height (visualRect v (parent idx))"
    and "7 * fontMetrics_width0 v + 10 \<le> rect_width (visualRect v (parent idx))"
  shows "rect_within (visualRect v idx) (visualRect v (parent idx)) \<and>
         rect_pixels (visualRect v idx) \<subseteq> rect_pixels (visualRect v (parent idx)) \<and>
         (\<not> rect_isNull (visualRect v idx) \<longrightarrow>
            rect_contains (visualRect v (parent idx)) (visualRect v idx))"
proof -
  from assms(1) have "0 \<le> row idx" by (cases idx) simp_all
  with assms have w: "rect_within (visualRect v idx) (visualRect v (parent idx))"
    by (simp add: visualRect_child childRect_within)
  from assms(3,5) have n: "\<not> rect_isNull (visualRect v (parent idx))"
    by (simp add: rect_isNull_def rect_height_def)
  from w n show ?thesis
    by (simp add: within_pixels within_contains)
qed

theorem visualRect_within_parent_witness:
  "isValid (childIndexAt 0 0) \<and> isValid (parent (childIndexAt 0 0)) \<and>
   rect_height (visualRect wview (parent (childIndexAt 0 0))) = 300 \<and>
   rect_width (visualRect wview (parent (childIndexAt 0 0))) = 250 \<and>
   visualRect wview (parent (childIndexAt 0 0)) = \<lparr>x1 = 0, y1 = 0, x2 = 249, y2 = 299\<rparr> \<and>
   visualRect wview (childIndexAt 0 0) = \<lparr>x1 = 5, y1 = 23, x2 = 244, y2 = 142\<rparr> \<and>
   \<not> rect_isNull (visualRect wview (childIndexAt 0 0)) \<and>
   rect_within (visualRect wview (childIndexAt 0 0)) (visualRect wview (parent (childIndexAt 0 0))) \<and>
   rect_pixels (visualRect wview (childIndexAt 0 0))
     \<subseteq> rect_pixels (visualRect wview (parent (childIndexAt 0 0))) \<and>
   rect_contains (visualRect wview (parent (childIndexAt 0 0))) (visualRect wview (childIndexAt 0 0))"
proof -
  have v: "isValid (childIndexAt 0 0)" "isValid (parent (childIndexAt 0 0))"
    by (simp_all add: childIndexAt_def topIndex_def)
  have m: "fontMetrics_height wview = 15" "fontMetrics_width0 wview = 8"
    by (simp_all add: wview_def)
  have f: "0 \<le> fontMetrics_height wview" "0 \<le> fontMetrics_width0 wview"
    by (simp_all add: m)
  have p: "visualRect wview (parent (childIndexAt 0 0)) = \<lparr>x1 = 0, y1 = 0, x2 = 249, y2 = 299\<rparr>"
    by (simp add: childIndexAt_def topIndex_def wview_def mkRect_def)
  have c: "visualRect wview (childIndexAt 0 0) = \<lparr>x1 = 5, y1 = 23, x2 = 244, y2 = 142\<rparr>"
    by (simp add: childIndexAt_def topIndex_def wview_def mkRect_def childRect_eq insetRect_eq)
  have h: "rect_height (visualRect wview (parent (childIndexAt 0 0))) = 300"
    and w: "rect_width (visualRect wview (parent (childIndexAt 0 0))) = 250"
    by (simp_all add: p rect_height_def rect_width_def)
  have b: "fontMetrics_height wview + 3 + 126 \<le> rect_height (visualRect wview (parent (childIndexAt 0 0)))"
    "7 * fontMetrics_width0 wview + 10 \<le> rect_width (visualRect wview (parent (childIndexAt 0 0)))"
    by (simp_all add: h w m)
  have n: "\<not> rect_isNull (visualRect wview (childIndexAt 0 0))"
    by (simp add: c rect_isNull_def)
  note T = visualRect_within_parent [OF v f b]
  from T have t1: "rect_within (visualRect wview (childIndexAt 0 0))
      (visualRect wview (parent (childIndexAt 0 0)))"
    by (rule conjunct1)
  from T have t2: "rect_pixels (visualRect wview (childIndexAt 0 0))
     \<subseteq> rect_pixels (visualRect wview (parent (childIndexAt 0 0)))"
    by (rule conjunct1 [OF conjunct2])
  from T n have t3: "rect_contains (visualRect wview (parent (childIndexAt 0 0)))
      (visualRect wview (childIndexAt 0 0))"
    by blast
  show ?thesis
    by (intro conjI v h w p c n t1 t2 t3)
qed

text \<open>
  The claim as first stated, without the bounds on the size of the parent: in an item of
  100 by 100 pixels, with a font 15 pixels high, the thumbnail of the first child ends at
  line 142, below the item's last line 99.
\<close>

theorem visualRect_within_parent_counterexample:
  "isValid (childIndexAt 0 0) \<and> isValid (parent (childIndexAt 0 0)) \<and>
   visualRect smallview (parent (childIndexAt 0 0)) = \<lparr>x1 = 0, y1 = 0, x2 = 99, y2 = 99\<rparr> \<and>
   visualRect smallview (childIndexAt 0 0) = \<lparr>x1 = 5, y1 = 23, x2 = 94, y2 = 142\<rparr> \<and>
   \<not> rect_within (visualRect smallview (childIndexAt 0 0))
         (visualRect smallview (parent (childIndexAt 0 0))) \<and>
   \<not> rect_contains (visualRect smallview (parent (childIndexAt 0 0)))
         (visualRect smallview (childIndexAt 0 0)) \<and>
   (5, 142) \<in> rect_pixels (visualRect smallview (childIndexAt 0 0)) \<and>
   (5, 142) \<notin> rect_pixels (visualRect smallview (parent (childIndexAt 0 0)))"
  by (simp add: childIndexAt_def topIndex_def smallview_def childRect_eq insetRect_eq mkRect_def
      rect_within_def rect_contains_def rect_isNull_def rect_pixels_def)

text \<open>
  The two bounds cannot be lowered. In an item one pixel narrower and one pixel lower
  than they ask, 65 by 143 pixels with the font 15 high and 8 wide, the name field of
  row 1 ends at column -1, left of the item, and the comment block of row 4 starts at
  line 143, below the item's last line 142.
\<close>

lemma within_parent_bounds_tight:
  "rect_width (visualRect tightview (topIndex 0)) = 7 * fontMetrics_width0 tightview + 9 \<and>
   rect_height (visualRect tightview (topIndex 0)) = fontMetrics_height tightview + 3 + 125 \<and>
   visualRect tightview (childIndexAt 0 1) = \<lparr>x1 = 31, y1 = 5, x2 = - 1, y2 = 22\<rparr> \<and>
   visualRect tightview (childIndexAt 0 4) = \<lparr>x1 = 5, y1 = 143, x2 = 59, y2 = 137\<rparr> \<and>
   \<not> rect_within (visualRect tightview (childIndexAt 0 1)) (visualRect tightview (topIndex 0)) \<and>
   \<not> rect_within (visualRect tightview (childIndexAt 0 4)) (visualRect tightview (topIndex 0)) \<and>
   \<not> rect_contains (visualRect tightview (topIndex 0)) (visualRect tightview (childIndexAt 0 1)) \<and>
   \<not> rect_contains (visualRect tightview (topIndex 0)) (visualRect tightview (childIndexAt 0 4))"
  by (simp add: childIndexAt_def topIndex_def tightview_def childRect_eq insetRect_eq mkRect_def
      rect_within_def rect_contains_def rect_isNull_def rect_width_def rect_height_def)

text \<open>
  Claim C6. Under one valid parent, the rectangles of rows 1, 2 and 3 share no pixel,
  are all as high as the font height plus 3, all start at the top of the inset parent
  rectangle, and follow each other from left to right without a gap: row 2 starts one
  pixel right of the end of row 1, row 3 one pixel right of the end of row 2, and row 3
  ends at the right edge of the inset parent rectangle.
\<close>

theorem name_and_number_fields:
  assumes "isValid p" and "0 \<le> c1" and "0 \<le> c2" and "0 \<le> c3"
  shows "rect_pixels (visualRect v (ModelIndex 1 c1 p)) \<inter> rect_pixels (visualRect v (ModelIndex 2 c2 p)) = {}
       \<and> rect_pixels (visualRect v (ModelIndex 1 c1 p)) \<inter> rect_pixels (visualRect v (ModelIndex 3 c3 p)) = {}
       \<and> rect_pixels (visualRect v (ModelIndex 2 c2 p)) \<inter> rect_pixels (visualRect v (ModelIndex 3 c3 p)) = {}
       \<and> rect_height (visualRect v (ModelIndex 1 c1 p)) = fontMetrics_height v + 3
       \<and> rect_height (visualRect v (ModelIndex 2 c2 p)) = fontMetrics_height v + 3
       \<and> rect_height (visualRect v (ModelIndex 3 c3 p)) = fontMetrics_height v + 3
       \<and> rect_top (visualRect v (ModelIndex 1 c1 p)) = rect_top (insetRect (visualRect v p))
       \<and> rect_top (visualRect v (ModelIndex 2 c2 p)) = rect_top (insetRect (visualRect v p))
       \<and> rect_top (visualRect v (ModelIndex 3 c3 p)) = rect_top (insetRect (visualRect v p))
       \<and> rect_right (visualRect v (ModelIndex 1 c1 p)) + 1 = rect_left (visualRect v (ModelIndex 2 c2 p))
       \<and> rect_right (visualRect v (ModelIndex 2 c2 p)) + 1 = rect_left (visualRect v (ModelIndex 3 c3 p))
       \<and> rect_right (visualRect v (ModelIndex 3 c3 p)) = rect_right (insetRect (visualRect v p))"
proof -
  let ?I = "insetRect (visualRect v p)"
  let ?fh = "fontMetrics_height v + 3"
  let ?nw = "fontMetrics_width0 v"
  have r1: "visualRect v (ModelIndex 1 c1 p) = childRect ?I ?fh ?nw 1"
    and r2: "visualRect v (ModelIndex 2 c2 p) = childRect ?I ?fh ?nw 2"
    and r3: "visualRect v (ModelIndex 3 c3 p) = childRect ?I ?fh ?nw 3"
    using assms by (simp_all add: Let_def)
  have d12: "rect_disjoint (childRect ?I ?fh ?nw 1) (childRect ?I ?fh ?nw 2)"
    and d13: "rect_disjoint (childRect ?I ?fh ?nw 1) (childRect ?I ?fh ?nw 3)"
    and d23: "rect_disjoint (childRect ?I ?fh ?nw 2) (childRect ?I ?fh ?nw 3)"
    by (auto simp: childRect_eq rect_disjoint_def rect_isEmpty_def)
  show ?thesis
    unfolding r1 r2 r3
    using d12 d13 d23
    by (simp add: disjoint_pixels childRect_eq rect_height_def rect_top_def rect_right_def rect_left_def)
qed

theorem name_and_number_fields_witness:
  "isValid (topIndex 0)
   \<and> visualRect wview (ModelIndex 1 0 (topIndex 0)) = \<lparr>x1 = 31, y1 = 5, x2 = 184, y2 = 22\<rparr>
   \<and> visualRect wview (ModelIndex 2 0 (topIndex 0)) = \<lparr>x1 = 185, y1 = 5, x2 = 218, y2 = 22\<rparr>
   \<and> visualRect wview (ModelIndex 3 0 (topIndex 0)) = \<lparr>x1 = 219, y1 = 5, x2 = 244, y2 = 22\<rparr>
   \<and> rect_pixels (visualRect wview (ModelIndex 1 0 (topIndex 0)))
       \<inter> rect_pixels (visualRect wview (ModelIndex 2 0 (topIndex 0))) = {}
   \<and> rect_pixels (visualRect wview (ModelIndex 1 0 (topIndex 0)))
       \<inter> rect_pixels (visualRect wview (ModelIndex 3 0 (topIndex 0))) = {}
   \<and> rect_pixels (visualRect wview (ModelIndex 2 0 (topIndex 0)))
       \<inter> rect_pixels (visualRect wview (ModelIndex 3 0 (topIndex 0))) = {}"
proof -
  have v: "isValid (topIndex 0)"
    by (simp add: topIndex_def)
  have r: "visualRect wview (ModelIndex 1 0 (topIndex 0)) = \<lparr>x1 = 31, y1 = 5, x2 = 184, y2 = 22\<rparr>"
    "visualRect wview (ModelIndex 2 0 (topIndex 0)) = \<lparr>x1 = 185, y1 = 5, x2 = 218, y2 = 22\<rparr>"
    "visualRect wview (ModelIndex 3 0 (topIndex 0)) = \<lparr>x1 = 219, y1 = 5, x2 = 244, y2 = 22\<rparr>"
    by (simp_all add: topIndex_def wview_def childRect_eq insetRect_eq mkRect_def)
  from name_and_number_fields [OF v, of 0 0 0 wview] v r show ?thesis
    by simp
qed






text \<open>
  The toolkit's methods being \<^verbatim>\<open>const\<close> is what the result rests on: run on a toolkit
  that counts its calls, the method still returns the rectangle of the name field, and
  leaves the count three higher for a child of a top-level item.
\<close>

lemma counting_toolkit_run:
  "visualRect_run countingToolkit (childIndexAt 0 1) 0
     = (\<lparr>x1 = 31, y1 = 5, x2 = 184, y2 = 22\<rparr>, 3)"
  by (simp add: countingToolkit_def childIndexAt_def topIndex_def childRect_eq insetRect_eq mkRect_def)

section \<open>Painting the children\<close>

declare paintChildren.simps [simp del] paintRows.simps [simp del]

lemma paintChildren_eq:
  "paintChildren v index childNum childRow =
     map (\<lambda>cr. DelegatePaint (childOption v index (ModelIndex cr 0 index)) (ModelIndex cr 0 index))
       [childRow..childNum - 1]"
proof (induction v index childNum childRow rule: paintChildren.induct)
  case (1 v index childNum childRow)
  show ?case
  proof (cases "childRow < childNum")
    case True
    then have "[childRow..childNum - 1] = childRow # [childRow + 1..childNum - 1]"
      by (simp add: upto_rec1)
    with True 1 show ?thesis
      by (subst paintChildren.simps) (simp add: Let_def model_index_def)
  next
    case False
    then show ?thesis by (subst paintChildren.simps) simp
  qed
qed

lemma paintRows_eq:
  "paintRows v itemNum r =
     concat (map (\<lambda>r. paintChildren v (ModelIndex r 0 InvalidIndex)
                        (model_rowCount v (ModelIndex r 0 InvalidIndex)) 0)
       [r..itemNum - 1])"
proof (induction v itemNum r rule: paintRows.induct)
  case (1 v itemNum r)
  show ?case
  proof (cases "r < itemNum")
    case True
    then have "[r..itemNum - 1] = r # [r + 1..itemNum - 1]"
      by (simp add: upto_rec1)
    with True 1 show ?thesis
      by (subst paintRows.simps) (simp add: Let_def model_index_def)
  next
    case False
    then show ?thesis by (subst paintRows.simps) simp
  qed
qed

lemma paintEvent_eq:
  "paintEvent v =
     EventAccept # ListViewPaint # concat (map (childCalls v) [0..model_rowCount v InvalidIndex - 1])"
  by (simp add: paintEvent_def paintRows_eq paintChildren_eq childCalls_def [abs_def]
      topIndex_def childIndexAt_def)

lemma map_filter_childCalls:
  "List.map_filter paintedIndex (childCalls v r) =
     map (childIndexAt r) [0..model_rowCount v (topIndex r) - 1]"
  by (simp add: childCalls_def map_filter_def filter_map o_def)

lemma map_filter_concat:
  "List.map_filter f (concat xss) = concat (map (List.map_filter f) xss)"
  by (induction xss) (simp_all add: map_filter_def)

lemma paintedIndices_eq:
  "paintedIndices v =
     concat (map (\<lambda>r. map (childIndexAt r) [0..model_rowCount v (topIndex r) - 1])
       [0..model_rowCount v InvalidIndex - 1])"
  by (simp add: paintedIndices_def paintEvent_eq map_filter_concat map_filter_childCalls o_def
      map_filter_simps)

lemma distinct_children_from:
  "distinct (concat (map (\<lambda>r. map (childIndexAt r) [0..n r - 1]) [i..j]))"
proof (induction i j rule: upto.induct)
  case (1 i j)
  show ?case
  proof (cases "i \<le> j")
    case True
    have step: "[i..j] = i # [i + 1..j]"
      using True by (simp add: upto_rec1)
    have d1: "distinct (map (childIndexAt i) [0..n i - 1])"
      by (simp add: distinct_map inj_on_def childIndexAt_def)
    have d2: "distinct (concat (map (\<lambda>r. map (childIndexAt r) [0..n r - 1]) [i + 1..j]))"
      using 1 True by simp
    have d3: "set (map (childIndexAt i) [0..n i - 1]) \<inter>
        set (concat (map (\<lambda>r. map (childIndexAt r) [0..n r - 1]) [i + 1..j])) = {}"
      by (auto simp: childIndexAt_def topIndex_def)
    show ?thesis
      unfolding step using d1 d2 d3 by simp
  next
    case False
    then show ?thesis by simp
  qed
qed

lemma set_paintedIndices:
  "set (paintedIndices v) =
     {childIndexAt r cr | r cr. 0 \<le> r \<and> r < model_rowCount v InvalidIndex \<and>
        0 \<le> cr \<and> cr < model_rowCount v (topIndex r)}"
proof -
  have "set (paintedIndices v) =
      (\<Union>r\<in>{0..model_rowCount v InvalidIndex - 1}.
         childIndexAt r ` {0..model_rowCount v (topIndex r) - 1})"
    by (simp add: paintedIndices_eq)
  also have "\<dots> = {childIndexAt r cr | r cr. 0 \<le> r \<and> r < model_rowCount v InvalidIndex \<and>
        0 \<le> cr \<and> cr < model_rowCount v (topIndex r)}"
    by (fastforce simp: image_iff)
  finally show ?thesis .
qed

lemma delegate_call_in_paintEvent:
  "DelegatePaint opt idx \<in> set (paintEvent v) \<longleftrightarrow>
     (\<exists>r cr. 0 \<le> r \<and> r < model_rowCount v InvalidIndex \<and>
        0 \<le> cr \<and> cr < model_rowCount v (topIndex r) \<and>
        idx = childIndexAt r cr \<and> opt = childOption v (topIndex r) idx)"
proof -
  have "DelegatePaint opt idx \<in> set (paintEvent v) \<longleftrightarrow>
      (\<exists>r\<in>{0..model_rowCount v InvalidIndex - 1}.
         \<exists>cr\<in>{0..model_rowCount v (topIndex r) - 1}.
           idx = childIndexAt r cr \<and> opt = childOption v (topIndex r) (childIndexAt r cr))"
    by (auto simp: paintEvent_eq childCalls_def)
  also have "\<dots> \<longleftrightarrow> (\<exists>r cr. 0 \<le> r \<and> r < model_rowCount v InvalidIndex \<and>
        0 \<le> cr \<and> cr < model_rowCount v (topIndex r) \<and>
        idx = childIndexAt r cr \<and> opt = childOption v (topIndex r) idx)"
    by fastforce
  finally show ?thesis .
qed

lemma childOption_rect: "option_rect (childOption v index childIndex) = visualRect v childIndex"
  by (simp add: childOption_def Let_def)



lemma pview_trace:
  "paintEvent pview =
       [EventAccept, ListViewPaint,
        DelegatePaint (childOption pview (topIndex 0) (childIndexAt 0 0)) (childIndexAt 0 0),
        DelegatePaint (childOption pview (topIndex 0) (childIndexAt 0 1)) (childIndexAt 0 1),
        DelegatePaint (childOption pview (topIndex 1) (childIndexAt 1 0)) (childIndexAt 1 0)]"
proof -
  have n: "model_rowCount pview InvalidIndex = 2" "model_rowCount pview (topIndex 0) = 2"
    "model_rowCount pview (topIndex 1) = 1"
    by (simp_all add: pview_def topIndex_def)
  have u: "[0..(1::int)] = [0, 1]" "[0..(0::int)] = [0]"
    by (simp_all add: upto_rec1)
  show ?thesis
    by (simp add: paintEvent_eq n u childCalls_def)
qed

text \<open>
  Claim C3. \<open>paintEvent\<close> first accepts the event and lets the list view paint, and
  then asks the delegate to paint the children: for every top-level row in order, every
  child row in order, once each, in the rectangle \<open>visualRect\<close> gives for that child.
  The indices painted are exactly the children at (row, childRow) with both in range.
\<close>

theorem paintEvent_paints_children:
  "paintEvent v =
     EventAccept # ListViewPaint # concat (map (childCalls v) [0..model_rowCount v InvalidIndex - 1])
   \<and> distinct (paintedIndices v)
   \<and> set (paintedIndices v) =
       {childIndexAt r cr | r cr. 0 \<le> r \<and> r < model_rowCount v InvalidIndex \<and>
          0 \<le> cr \<and> cr < model_rowCount v (topIndex r)}
   \<and> (\<forall>opt idx. DelegatePaint opt idx \<in> set (paintEvent v) \<longrightarrow>
         option_rect opt = visualRect v idx)"
proof -
  have "distinct (paintedIndices v)"
    unfolding paintedIndices_eq by (rule distinct_children_from)
  moreover have "\<forall>opt idx. DelegatePaint opt idx \<in> set (paintEvent v) \<longrightarrow>
         option_rect opt = visualRect v idx"
    by (auto simp: delegate_call_in_paintEvent childOption_rect)
  ultimately show ?thesis
    using paintEvent_eq set_paintedIndices by blast
qed

theorem paintEvent_paints_children_witness:
  "DelegatePaint (childOption pview (topIndex 1) (childIndexAt 1 0)) (childIndexAt 1 0)
     \<in> set (paintEvent pview)
   \<and> option_rect (childOption pview (topIndex 1) (childIndexAt 1 0))
       = visualRect pview (childIndexAt 1 0)
   \<and> paintedIndices pview = [childIndexAt 0 0, childIndexAt 0 1, childIndexAt 1 0]
   \<and> distinct (paintedIndices pview)"
proof -
  note T = paintEvent_paints_children [of pview]
  from T have d: "distinct (paintedIndices pview)"
    by (rule conjunct1 [OF conjunct2])
  from T have r: "\<forall>opt idx. DelegatePaint opt idx \<in> set (paintEvent pview) \<longrightarrow>
      option_rect opt = visualRect pview idx"
    by (rule conjunct2 [OF conjunct2 [OF conjunct2]])
  have m: "DelegatePaint (childOption pview (topIndex 1) (childIndexAt 1 0)) (childIndexAt 1 0)
     \<in> set (paintEvent pview)"
    by (simp add: pview_trace)
  from r m have o: "option_rect (childOption pview (topIndex 1) (childIndexAt 1 0))
       = visualRect pview (childIndexAt 1 0)"
    by blast
  have p: "paintedIndices pview = [childIndexAt 0 0, childIndexAt 0 1, childIndexAt 1 0]"
    by (simp add: paintedIndices_def pview_trace map_filter_simps)
  show ?thesis
    by (intro conjI m o p d)
qed





section \<open>Hotspot identifiers\<close>

lemma ids_setHotSpot_list:
  "map hs_id (setHotSpot_list position i hs) =
     (if i \<in> set (map hs_id hs) then map hs_id hs else map hs_id hs @ [i])"
  by (induction hs) auto

lemma ids_removeHotSpot_list:
  "map hs_id (snd (removeHotSpot_list i hs)) = remove1 i (map hs_id hs)"
  by (induction hs) (auto split: prod.splits)

lemma found_removeHotSpot_list:
  "fst (removeHotSpot_list i hs) \<longleftrightarrow> i \<in> set (map hs_id hs)"
  by (induction hs) (auto split: prod.splits)

lemma ids_setHotSpot:
  "hotspot_ids (setHotSpot position i d) =
     (if i \<in> set (hotspot_ids d) then hotspot_ids d else hotspot_ids d @ [i])"
  by (simp add: hotspot_ids_def setHotSpot_def ids_setHotSpot_list)

lemma ids_removeHotSpot:
  "hotspot_ids (snd (removeHotSpot i d)) = remove1 i (hotspot_ids d)"
  by (simp add: hotspot_ids_def removeHotSpot_def split_def Let_def ids_removeHotSpot_list)

lemma distinct_ruler_step:
  assumes "distinct (hotspot_ids d)"
  shows "distinct (hotspot_ids (ruler_step d c))"
proof (cases c)
  case (SetHotSpot position i)
  with assms show ?thesis by (simp add: ids_setHotSpot)
next
  case (RemoveHotSpot i)
  with assms show ?thesis by (simp add: ids_removeHotSpot)
next
  case ClearHotSpots
  then show ?thesis by (simp add: hotspot_ids_def clearHotSpots_def)
next
  case (UpdateTabs ts distance)
  with assms show ?thesis by (simp add: hotspot_ids_def updateTabs_def)
qed

lemma distinct_ruler_run:
  "distinct (hotspot_ids d) \<Longrightarrow> distinct (hotspot_ids (ruler_run d calls))"
  unfolding ruler_run_def
  by (induction calls arbitrary: d) (simp_all add: distinct_ruler_step)

text \<open>
  Claim C9. From a new ruler, after any sequence of \<open>setHotSpot\<close>, \<open>removeHotSpot\<close>,
  \<open>clearHotSpots\<close> and \<open>updateTabs\<close> calls, no two hotspots have the same identifier;
  \<open>setHotSpot\<close> with an identifier in use leaves the list of identifiers as it is, and
  with a new identifier adds it once.
\<close>

theorem hotspot_ids_unique:
  "distinct (hotspot_ids (ruler_run newRuler calls)) \<and>
   (distinct (hotspot_ids d) \<longrightarrow> distinct (hotspot_ids (ruler_run d calls))) \<and>
   (i \<in> set (hotspot_ids d) \<longrightarrow>
      hotspot_ids (setHotSpot position i d) = hotspot_ids d) \<and>
   (i \<notin> set (hotspot_ids d) \<longrightarrow>
      hotspot_ids (setHotSpot position i d) = hotspot_ids d @ [i])"
proof -
  have "distinct (hotspot_ids newRuler)"
    by (simp add: hotspot_ids_def newRuler_def)
  then have "distinct (hotspot_ids (ruler_run newRuler calls))"
    by (rule distinct_ruler_run)
  then show ?thesis
    by (simp add: ids_setHotSpot distinct_ruler_run)
qed

theorem hotspot_ids_unique_witness:
  "hotspot_ids (ruler_run newRuler
      [SetHotSpot 10 1, SetHotSpot 20 2, SetHotSpot 30 1, SetHotSpot 5 (- 1), RemoveHotSpot 2,
       UpdateTabs [] 36]) = [1, - 1]
   \<and> distinct (hotspot_ids (ruler_run newRuler
      [SetHotSpot 10 1, SetHotSpot 20 2, SetHotSpot 30 1, SetHotSpot 5 (- 1), RemoveHotSpot 2,
       UpdateTabs [] 36]))
   \<and> distinct (hotspot_ids (setHotSpot 10 1 newRuler))
   \<and> distinct (hotspot_ids (ruler_run (setHotSpot 10 1 newRuler) [SetHotSpot 7 1, SetHotSpot 8 3]))
   \<and> 1 \<in> set (hotspot_ids (setHotSpot 10 1 newRuler))
   \<and> hotspot_ids (setHotSpot 30 1 (setHotSpot 10 1 newRuler)) = hotspot_ids (setHotSpot 10 1 newRuler)
   \<and> 2 \<notin> set (hotspot_ids (setHotSpot 10 1 newRuler))
   \<and> hotspot_ids (setHotSpot 20 2 (setHotSpot 10 1 newRuler))
       = hotspot_ids (setHotSpot 10 1 newRuler) @ [2]"
proof -
  have i: "hotspot_ids (setHotSpot 10 1 newRuler) = [1]"
    by (simp add: hotspot_ids_def setHotSpot_def newRuler_def)
  have r: "hotspot_ids (ruler_run newRuler
      [SetHotSpot 10 1, SetHotSpot 20 2, SetHotSpot 30 1, SetHotSpot 5 (- 1), RemoveHotSpot 2,
       UpdateTabs [] 36]) = [1, - 1]"
    by (simp add: ruler_run_def hotspot_ids_def setHotSpot_def removeHotSpot_def updateTabs_def
        newRuler_def)
  note A = hotspot_ids_unique [where calls = "[SetHotSpot 10 1, SetHotSpot 20 2, SetHotSpot 30 1,
      SetHotSpot 5 (- 1), RemoveHotSpot 2, UpdateTabs [] 36]" and i = 1
      and d = "setHotSpot 10 1 newRuler" and position = 30]
  note B = hotspot_ids_unique [where calls = "[SetHotSpot 7 1, SetHotSpot 8 3]" and i = 2
      and d = "setHotSpot 10 1 newRuler" and position = 20]
  from A have a1: "distinct (hotspot_ids (ruler_run newRuler
      [SetHotSpot 10 1, SetHotSpot 20 2, SetHotSpot 30 1, SetHotSpot 5 (- 1), RemoveHotSpot 2,
       UpdateTabs [] 36]))"
    by (rule conjunct1)
  from A i have a2: "hotspot_ids (setHotSpot 30 1 (setHotSpot 10 1 newRuler))
      = hotspot_ids (setHotSpot 10 1 newRuler)"
    by simp
  from B i have b1: "distinct (hotspot_ids (ruler_run (setHotSpot 10 1 newRuler)
      [SetHotSpot 7 1, SetHotSpot 8 3]))"
    by simp
  from B i have b2: "hotspot_ids (setHotSpot 20 2 (setHotSpot 10 1 newRuler))
       = hotspot_ids (setHotSpot 10 1 newRuler) @ [2]"
    by simp
  from i r a1 a2 b1 b2 show ?thesis
    by simp
qed

end
